theory Spec2Isabelle
  imports Main "HOL-Library.Word" "HOL-Library.Char_ord" "HOL-Library.List_Lexorder"
    "HOL-Library.Multiset"
begin

section \<open>Data model of flatten.go\<close>

text \<open>
  \<^verbatim>\<open>type SeparatorStyle int\<close> with the constants declared by \<^verbatim>\<open>iota\<close>: the value 0 is
  skipped (\<^verbatim>\<open>_\<close>), DotStyle is 1, SlashStyle is 2 and RailsStyle is 3. A caller can pass
  any integer.
\<close>

type_synonym SeparatorStyle = int

definition DotStyle :: SeparatorStyle where
  "DotStyle = 1"

definition SlashStyle :: SeparatorStyle where
  "SlashStyle = 2"

definition RailsStyle :: SeparatorStyle where
  "RailsStyle = 3"

text \<open>
  \<^verbatim>\<open>NotValidInputError\<close> is the only error the package creates. \<^verbatim>\<open>JSONError\<close> stands for
  an error of \<^verbatim>\<open>json.Unmarshal\<close> or \<^verbatim>\<open>json.Marshal\<close>, which FlattenString hands on.
\<close>

datatype error = NotValidInputError | JSONError string

text \<open>
  A value of type \<^verbatim>\<open>interface{}\<close>, by dynamic type. The type switches of the source
  name \<^verbatim>\<open>map[string]interface{}\<close>, \<^verbatim>\<open>[]interface{}\<close>, \<^verbatim>\<open>string\<close>, \<^verbatim>\<open>int32\<close>, \<^verbatim>\<open>int64\<close>,
  \<^verbatim>\<open>float32\<close>, \<^verbatim>\<open>float64\<close> and \<^verbatim>\<open>json.Number\<close>; the tests also use \<^verbatim>\<open>bool\<close> and \<^verbatim>\<open>int\<close>.
  A map is the list of its entries in the order in which \<^verbatim>\<open>range\<close> visits them (any order
  is possible; the keys of a Go map are distinct). Floating-point values are carried as
  their bit patterns. \<^verbatim>\<open>NilV\<close> is the nil interface (JSON null), and \<^verbatim>\<open>OtherV\<close> is a value of
  any other dynamic type (a struct, an unsigned integer, ...), named by its type.
\<close>

datatype iface =
    MapV "(string \<times> iface) list"
  | SliceV "iface list"
  | StringV string
  | Int32V "32 word"
  | Int64V "64 word"
  | Float32V "32 word"
  | Float64V "64 word"
  | NumberV string
  | BoolV bool
  | IntV "64 word"
  | NilV
  | OtherV string

text \<open>The two dynamic types that the traversals descend into.\<close>

fun isMap :: "iface \<Rightarrow> bool" where
  "isMap (MapV m) = True"
| "isMap _ = False"

fun isSlice :: "iface \<Rightarrow> bool" where
  "isSlice (SliceV arr) = True"
| "isSlice _ = False"

section \<open>Library functions the source calls\<close>

text \<open>\<^verbatim>\<open>strconv.Itoa\<close>: the decimal text of an integer.\<close>

function digits :: "nat \<Rightarrow> string" where
  "digits n =
     (if n < 10 then [''0123456789'' ! n]
      else digits (n div 10) @ [''0123456789'' ! (n mod 10)])"
  by pat_completeness auto
termination
  by (relation "measure id") auto

definition Itoa :: "int \<Rightarrow> string" where
  "Itoa i = (if i < 0 then CHR ''-'' # digits (nat (- i)) else digits (nat i))"

text \<open>
  \<^verbatim>\<open>fmt.Sprintf("%v", v)\<close> is a parameter \<open>fmtv\<close> of the list variant. \<open>fmt_v\<close> is that
  verb on the dynamic types whose rendering is plain (text, booleans, signed integers,
  \<^verbatim>\<open>json.Number\<close>, nil); every other value goes to \<open>other\<close>.
\<close>

fun fmt_v :: "(iface \<Rightarrow> string) \<Rightarrow> iface \<Rightarrow> string" where
  "fmt_v other (StringV s) = s"
| "fmt_v other (NumberV s) = s"
| "fmt_v other (BoolV b) = (if b then ''true'' else ''false'')"
| "fmt_v other (IntV i) = Itoa (sint i)"
| "fmt_v other (Int32V i) = Itoa (sint i)"
| "fmt_v other (Int64V i) = Itoa (sint i)"
| "fmt_v other NilV = ''<nil>''"
| "fmt_v other v = other v"

section \<open>The functions of flatten.go\<close>

text \<open>
  \<^verbatim>\<open>enkey\<close>: \<^verbatim>\<open>key := prefix\<close>; at the top level the subkey is appended; below it the
  \<^verbatim>\<open>switch\<close> on the style appends a connective and the subkey. The \<^verbatim>\<open>switch\<close> has no
  \<^verbatim>\<open>default\<close> case: for any other style \<^verbatim>\<open>key\<close> is returned as it is.
\<close>

definition enkey :: "bool \<Rightarrow> string \<Rightarrow> string \<Rightarrow> SeparatorStyle \<Rightarrow> string" where
  "enkey isTop prefix subkey style =
     (if isTop then prefix @ subkey
      else if style = DotStyle then prefix @ (''.'' @ subkey)
      else if style = SlashStyle then prefix @ (''/'' @ subkey)
      else if style = RailsStyle then prefix @ (''['' @ subkey @ '']'')
      else prefix)"

text \<open>\<^verbatim>\<open>allPrimitives\<close>: the loop returns false at the first item of another dynamic type.\<close>

fun allPrimitives :: "iface list \<Rightarrow> bool" where
  "allPrimitives [] = True"
| "allPrimitives (item # arr) =
     (case item of
        StringV _ \<Rightarrow> allPrimitives arr
      | Int32V _ \<Rightarrow> allPrimitives arr
      | Int64V _ \<Rightarrow> allPrimitives arr
      | Float32V _ \<Rightarrow> allPrimitives arr
      | Float64V _ \<Rightarrow> allPrimitives arr
      | NumberV _ \<Rightarrow> allPrimitives arr
      | _ \<Rightarrow> False)"

text \<open>The local variable \<^verbatim>\<open>shouldFlatten\<close> of the closure \<^verbatim>\<open>assign\<close> in \<^verbatim>\<open>flatten\<close>.\<close>

fun shouldFlatten :: "iface \<Rightarrow> bool" where
  "shouldFlatten (SliceV arr) = (\<not> allPrimitives arr)"
| "shouldFlatten (MapV m) = True"
| "shouldFlatten _ = False"

text \<open>
  \<^verbatim>\<open>flatten\<close> and its closure \<^verbatim>\<open>assign\<close>. The map \<^verbatim>\<open>flatMap\<close> is mutated in place by the
  source; here it is passed in and returned with the error. Both loops call
  \<^verbatim>\<open>assign(newKey, v)\<close> as a statement, so the error it returns is dropped (\<open>fst\<close>).
\<close>

function (sequential)
  flatten :: "bool \<Rightarrow> (string \<rightharpoonup> iface) \<Rightarrow> iface \<Rightarrow> string \<Rightarrow> SeparatorStyle
                \<Rightarrow> (string \<rightharpoonup> iface) \<times> error option"
  and assign :: "SeparatorStyle \<Rightarrow> (string \<rightharpoonup> iface) \<Rightarrow> string \<Rightarrow> iface
                \<Rightarrow> (string \<rightharpoonup> iface) \<times> error option"
where
  "flatten isTop flatMap (MapV m) prefix style =
     (fold (\<lambda>(k, v) fm. fst (assign style fm (enkey isTop prefix k style) v)) m flatMap,
      None)"
| "flatten isTop flatMap (SliceV arr) prefix style =
     (fold (\<lambda>(i, v) fm. fst (assign style fm (enkey isTop prefix (Itoa (int i)) style) v))
        (enumerate 0 arr) flatMap,
      None)"
| "flatten isTop flatMap _ prefix style = (flatMap, Some NotValidInputError)"
| "assign style flatMap newKey v =
     (if \<not> shouldFlatten v then (flatMap(newKey \<mapsto> v), None)
      else flatten False flatMap v newKey style)"
  by pat_completeness auto
termination
proof (relation "measure (\<lambda>x. case x of
          Inl (isTop, flatMap, nested, prefix, style) \<Rightarrow> 2 * size nested
        | Inr (style, flatMap, newKey, v) \<Rightarrow> 2 * size v + 1)", goal_cases)
  case 1
  show ?case by simp
next
  case (2 isTop flatMap m prefix style x xa y xb)
  then have "(xa, y) \<in> set m" by simp
  from size_list_estimation'[OF this, of "size y" "size_prod (\<lambda>x. 0) size"]
  show ?case by simp
next
  case (3 isTop flatMap arr prefix style x xa y xb)
  then have "y \<in> set arr" by (auto simp: in_set_enumerate_eq)
  from size_list_estimation'[OF this, of "size y" size]
  show ?case by simp
next
  case (4 style flatMap newKey v)
  show ?case by simp
qed

declare assign.simps [simp del]

text \<open>
  \<^verbatim>\<open>flattenAll\<close> and its closure \<^verbatim>\<open>assign\<close> (here \<open>assignAll\<close>). \<^verbatim>\<open>result\<close> is the slice
  behind the pointer; \<^verbatim>\<open>append\<close> adds at the end.
\<close>

function (sequential)
  flattenAll :: "(iface \<Rightarrow> string) \<Rightarrow> bool \<Rightarrow> string list \<Rightarrow> iface \<Rightarrow> string
                   \<Rightarrow> SeparatorStyle \<Rightarrow> string list \<times> error option"
  and assignAll :: "(iface \<Rightarrow> string) \<Rightarrow> SeparatorStyle \<Rightarrow> string list \<Rightarrow> string \<Rightarrow> iface
                   \<Rightarrow> string list \<times> error option"
where
  "flattenAll fmtv isTop result (MapV m) prefix style =
     (fold (\<lambda>(k, v) res. fst (assignAll fmtv style res (enkey isTop prefix k style) v))
        m result,
      None)"
| "flattenAll fmtv isTop result (SliceV arr) prefix style =
     (fold (\<lambda>(i, v) res.
              fst (assignAll fmtv style res (enkey isTop prefix (Itoa (int i)) style) v))
        (enumerate 0 arr) result,
      None)"
| "flattenAll fmtv isTop result _ prefix style = (result, Some NotValidInputError)"
| "assignAll fmtv style result newKey v =
     (if isMap v \<or> isSlice v then
        (case flattenAll fmtv False result v newKey style of
           (res, Some err) \<Rightarrow> (res, Some err)
         | (res, None) \<Rightarrow> (res, None))
      else (result @ [newKey @ ''.'' @ fmtv v], None))"
  by pat_completeness auto
termination
proof (relation "measure (\<lambda>x. case x of
          Inl (fmtv, isTop, result, nested, prefix, style) \<Rightarrow> 2 * size nested
        | Inr (fmtv, style, result, newKey, v) \<Rightarrow> 2 * size v + 1)", goal_cases)
  case 1
  show ?case by simp
next
  case (2 fmtv isTop result m prefix style x xa y xb)
  then have "(xa, y) \<in> set m" by simp
  from size_list_estimation'[OF this, of "size y" "size_prod (\<lambda>x. 0) size"]
  show ?case by simp
next
  case (3 fmtv isTop result arr prefix style x xa y xb)
  then have "y \<in> set arr" by (auto simp: in_set_enumerate_eq)
  from size_list_estimation'[OF this, of "size y" size]
  show ?case by simp
next
  case (4 fmtv style result newKey v)
  show ?case by simp
qed

declare assignAll.simps [simp del]

text \<open>
  \<^verbatim>\<open>Flatten\<close>: a fresh map, the traversal at the top level, and \<^verbatim>\<open>(nil, err)\<close> on an
  error. The parameter is a \<^verbatim>\<open>map[string]interface{}\<close>; a nil map ranges over nothing
  and is the empty list of entries.
\<close>

definition Flatten :: "(string \<times> iface) list \<Rightarrow> string \<Rightarrow> SeparatorStyle
                         \<Rightarrow> error + (string \<rightharpoonup> iface)" where
  "Flatten nested prefix style =
     (case flatten True Map.empty (MapV nested) prefix style of
        (flatmap, Some err) \<Rightarrow> Inl err
      | (flatmap, None) \<Rightarrow> Inr flatmap)"

text \<open>\<^verbatim>\<open>FlattenAll\<close>; \<^verbatim>\<open>sort.Strings\<close> puts the entries in increasing byte order.\<close>

definition FlattenAll :: "(iface \<Rightarrow> string) \<Rightarrow> iface \<Rightarrow> string \<Rightarrow> SeparatorStyle \<Rightarrow> bool
                            \<Rightarrow> error + string list" where
  "FlattenAll fmtv nested prefix style sortd =
     (case flattenAll fmtv True [] nested prefix style of
        (result, Some err) \<Rightarrow> Inl err
      | (result, None) \<Rightarrow> Inr (if sortd then sort result else result))"

text \<open>
  \<^verbatim>\<open>FlattenString\<close>, over the two functions of \<^verbatim>\<open>encoding/json\<close> it calls:
  \<open>unmarshal\<close> decodes a text into a \<^verbatim>\<open>map[string]interface{}\<close> and \<open>marshal\<close> encodes the
  flat map; each may fail.
\<close>

definition FlattenString :: "(string \<Rightarrow> error + (string \<times> iface) list)
      \<Rightarrow> ((string \<rightharpoonup> iface) \<Rightarrow> error + string)
      \<Rightarrow> string \<Rightarrow> string \<Rightarrow> SeparatorStyle \<Rightarrow> error + string" where
  "FlattenString unmarshal marshal nestedstr prefix style =
     (case unmarshal nestedstr of
        Inl err \<Rightarrow> Inl err
      | Inr nested \<Rightarrow>
          (case Flatten nested prefix style of
             Inl err \<Rightarrow> Inl err
           | Inr flatmap \<Rightarrow>
               (case marshal flatmap of
                  Inl err \<Rightarrow> Inl err
                | Inr flatb \<Rightarrow> Inr flatb)))"

section \<open>The specification's notions\<close>

text \<open>
  The dynamic types that \<^verbatim>\<open>allPrimitives\<close> accepts, as a predicate on one value.
\<close>

fun isPrimitive :: "iface \<Rightarrow> bool" where
  "isPrimitive (StringV s) = True"
| "isPrimitive (Int32V i) = True"
| "isPrimitive (Int64V i) = True"
| "isPrimitive (Float32V f) = True"
| "isPrimitive (Float64V f) = True"
| "isPrimitive (NumberV s) = True"
| "isPrimitive _ = False"

text \<open>
  A leaf of the map variant: a value that is no map and no slice, or a slice whose
  elements are all of the types above.
\<close>

fun isLeaf :: "iface \<Rightarrow> bool" where
  "isLeaf (MapV m) = False"
| "isLeaf (SliceV arr) = list_all isPrimitive arr"
| "isLeaf _ = True"

text \<open>The statement \<^verbatim>\<open>flatMap[key] = v\<close>.\<close>

fun store :: "string \<times> iface \<Rightarrow> (string \<rightharpoonup> iface) \<Rightarrow> (string \<rightharpoonup> iface)" where
  "store (k, v) fm = fm(k \<mapsto> v)"

text \<open>
  The leaves of the map variant with their encoded paths, in the order of the traversal:
  a map or a slice contributes the leaves of its entries, each below the path of its key
  or index.
\<close>

function (sequential)
  leaves :: "bool \<Rightarrow> iface \<Rightarrow> string \<Rightarrow> SeparatorStyle \<Rightarrow> (string \<times> iface) list"
  and leavesAt :: "SeparatorStyle \<Rightarrow> string \<Rightarrow> iface \<Rightarrow> (string \<times> iface) list"
where
  "leaves isTop (MapV m) prefix style =
     concat (map (\<lambda>(k, v). leavesAt style (enkey isTop prefix k style) v) m)"
| "leaves isTop (SliceV arr) prefix style =
     concat (map (\<lambda>(i, v). leavesAt style (enkey isTop prefix (Itoa (int i)) style) v)
       (enumerate 0 arr))"
| "leaves isTop _ prefix style = []"
| "leavesAt style path v =
     (if isLeaf v then [(path, v)] else leaves False v path style)"
  by pat_completeness auto
termination
proof (relation "measure (\<lambda>x. case x of
          Inl (isTop, nested, prefix, style) \<Rightarrow> 2 * size nested
        | Inr (style, path, v) \<Rightarrow> 2 * size v + 1)", goal_cases)
  case 1
  show ?case by simp
next
  case (2 isTop m prefix style x xa y)
  then have "(xa, y) \<in> set m" by simp
  from size_list_estimation'[OF this, of "size y" "size_prod (\<lambda>x. 0) size"]
  show ?case by simp
next
  case (3 isTop arr prefix style x xa y)
  then have "y \<in> set arr" by (auto simp: in_set_enumerate_eq)
  from size_list_estimation'[OF this, of "size y" size]
  show ?case by simp
next
  case (4 style path v)
  show ?case by simp
qed

declare leavesAt.simps [simp del]

text \<open>
  The leaves of the list variant: every map and every slice is entered, and every other
  value is a leaf.
\<close>

function (sequential)
  allLeaves :: "bool \<Rightarrow> iface \<Rightarrow> string \<Rightarrow> SeparatorStyle \<Rightarrow> (string \<times> iface) list"
  and allLeavesAt :: "SeparatorStyle \<Rightarrow> string \<Rightarrow> iface \<Rightarrow> (string \<times> iface) list"
where
  "allLeaves isTop (MapV m) prefix style =
     concat (map (\<lambda>(k, v). allLeavesAt style (enkey isTop prefix k style) v) m)"
| "allLeaves isTop (SliceV arr) prefix style =
     concat (map (\<lambda>(i, v). allLeavesAt style (enkey isTop prefix (Itoa (int i)) style) v)
       (enumerate 0 arr))"
| "allLeaves isTop _ prefix style = []"
| "allLeavesAt style path v =
     (if isMap v \<or> isSlice v then allLeaves False v path style else [(path, v)])"
  by pat_completeness auto
termination
proof (relation "measure (\<lambda>x. case x of
          Inl (isTop, nested, prefix, style) \<Rightarrow> 2 * size nested
        | Inr (style, path, v) \<Rightarrow> 2 * size v + 1)", goal_cases)
  case 1
  show ?case by simp
next
  case (2 isTop m prefix style x xa y)
  then have "(xa, y) \<in> set m" by simp
  from size_list_estimation'[OF this, of "size y" "size_prod (\<lambda>x. 0) size"]
  show ?case by simp
next
  case (3 isTop arr prefix style x xa y)
  then have "y \<in> set arr" by (auto simp: in_set_enumerate_eq)
  from size_list_estimation'[OF this, of "size y" size]
  show ?case by simp
next
  case (4 style path v)
  show ?case by simp
qed

declare allLeavesAt.simps [simp del]

text \<open>The text entry of a leaf in the flat list, and the \<^verbatim>\<open>append\<close> of it.\<close>

fun entry :: "(iface \<Rightarrow> string) \<Rightarrow> string \<times> iface \<Rightarrow> string" where
  "entry fmtv (path, v) = path @ ''.'' @ fmtv v"

fun emit :: "(iface \<Rightarrow> string) \<Rightarrow> string \<times> iface \<Rightarrow> string list \<Rightarrow> string list" where
  "emit fmtv (path, v) result = result @ [path @ ''.'' @ fmtv v]"

text \<open>
  A tree of maps and scalars only (no slice at any depth), its leaves with their paths as
  lists of keys, and the path joined by dots.
\<close>

fun noSlices :: "iface \<Rightarrow> bool" where
  "noSlices (MapV m) = list_all (\<lambda>(k, v). noSlices v) m"
| "noSlices (SliceV arr) = False"
| "noSlices _ = True"

fun leafPaths :: "iface \<Rightarrow> (string list \<times> iface) list" where
  "leafPaths (MapV m) =
     concat (map (\<lambda>(k, v). if isMap v then map (\<lambda>(p, x). (k # p, x)) (leafPaths v)
                             else [([k], v)]) m)"
| "leafPaths _ = []"

fun dotJoin :: "string list \<Rightarrow> string" where
  "dotJoin [] = []"
| "dotJoin [k] = k"
| "dotJoin (k # p) = k @ ''.'' @ dotJoin p"

definition dotLeaves :: "(string \<times> iface) list \<Rightarrow> (string \<times> iface) list" where
  "dotLeaves m = map (\<lambda>(p, v). (dotJoin p, v)) (leafPaths (MapV m))"

text \<open>
  The same tree whatever the order in which its maps are visited: the entries of every
  map sorted by key.
\<close>

fun canon :: "iface \<Rightarrow> iface" where
  "canon (MapV m) = MapV (sort_key fst (map (\<lambda>(k, v). (k, canon v)) m))"
| "canon (SliceV arr) = SliceV (map canon arr)"
| "canon v = v"

section \<open>The key encoder\<close>

lemma enkey_top [simp]: "enkey True prefix subkey style = prefix @ subkey"
  by (simp add: enkey_def)

lemma enkey_dot [simp]: "enkey False prefix subkey DotStyle = prefix @ ''.'' @ subkey"
  by (simp add: enkey_def)

lemma enkey_slash [simp]: "enkey False prefix subkey SlashStyle = prefix @ ''/'' @ subkey"
  by (simp add: enkey_def SlashStyle_def DotStyle_def)

lemma enkey_rails [simp]:
  "enkey False prefix subkey RailsStyle = prefix @ ''['' @ subkey @ '']''"
  by (simp add: enkey_def RailsStyle_def SlashStyle_def DotStyle_def)

text \<open>
  Claim C5. At the top level the key encoder returns the parent path followed by the child
  key, with no separator, for every style. Below the top level it returns the parent path
  followed by \<open>.\<close> and the child key (Dot), \<open>/\<close> and the child key (Slash), or the child
  key in square brackets (Rails). So Flatten with prefix \<open>p:\<close> and Dot style stores a
  top-level entry \<open>k\<close> under \<open>p:k\<close> and an entry \<open>c\<close> nested in \<open>k\<close> under \<open>p:k.c\<close>, as in
  the third case of TestFlatten.
\<close>

theorem enkey_styles:
  "enkey True parentPath childKey style = parentPath @ childKey
   \<and> enkey False parentPath childKey DotStyle = parentPath @ ''.'' @ childKey
   \<and> enkey False parentPath childKey SlashStyle = parentPath @ ''/'' @ childKey
   \<and> enkey False parentPath childKey RailsStyle = parentPath @ ''['' @ childKey @ '']''
   \<and> Flatten [(k, StringV s)] ''p:'' DotStyle = Inr [''p:'' @ k \<mapsto> StringV s]
   \<and> Flatten [(k, MapV [(c, StringV s)])] ''p:'' DotStyle
       = Inr [''p:'' @ k @ ''.'' @ c \<mapsto> StringV s]
   \<and> Flatten [(''a'', MapV [(''b'', StringV ''c'')]), (''e'', StringV ''f'')] ''p:'' DotStyle
       = Inr [''p:a.b'' \<mapsto> StringV ''c'', ''p:e'' \<mapsto> StringV ''f'']"
  by (simp add: Flatten_def assign.simps)

text \<open>
  Claim C6, as the source has it. Below the top level, a style that is none of Dot, Slash
  and Rails (the unset value 0 among them) is not rejected, and no case of the switch
  applies: the key encoder returns the parent path alone. Neither a connective nor the
  child key is appended, unlike at the top level.
\<close>

theorem enkey_unknown_style:
  "style \<noteq> DotStyle \<Longrightarrow> style \<noteq> SlashStyle \<Longrightarrow> style \<noteq> RailsStyle
   \<Longrightarrow> enkey False parentPath childKey style = parentPath"
  by (simp add: enkey_def)

theorem enkey_unknown_style_witness:
  "(0 :: SeparatorStyle) \<noteq> DotStyle \<and> (0 :: SeparatorStyle) \<noteq> SlashStyle
   \<and> (0 :: SeparatorStyle) \<noteq> RailsStyle \<and> enkey False ''a'' ''b'' 0 = ''a''"
  using enkey_unknown_style [of 0 "''a''" "''b''"]
  by (simp add: DotStyle_def SlashStyle_def RailsStyle_def)

text \<open>
  Claim C6 as the specification states it fails: with the unset style 0 the call below the
  top level drops the child key, where the top-level call appends it.
\<close>

theorem enkey_unknown_style_counterexample:
  "enkey False ''a'' ''b'' 0 \<noteq> ''a'' @ ''b''"
  by (simp add: enkey_def DotStyle_def SlashStyle_def RailsStyle_def)

section \<open>The map variant\<close>

lemma allPrimitives_list_all: "allPrimitives arr = list_all isPrimitive arr"
  by (induction arr) (auto split: iface.splits)

lemma shouldFlatten_isLeaf: "shouldFlatten v = (\<not> isLeaf v)"
  by (cases v) (simp_all add: allPrimitives_list_all)

lemma shouldFlatten_nested: "shouldFlatten v \<Longrightarrow> isMap v \<or> isSlice v"
  by (cases v) simp_all

lemma fold_concat_map:
  "(\<And>x s. x \<in> set xs \<Longrightarrow> f x s = fold h (g x) s)
   \<Longrightarrow> fold f xs s = fold h (concat (map g xs)) s"
  by (induction xs arbitrary: s) simp_all

lemma concat_singletons: "concat (map (\<lambda>kv. [kv]) xs) = xs"
  by (induction xs) simp_all

text \<open>The traversal stores the leaves, one after the other, into the map it is given.\<close>

lemma flatten_assign_leaves:
  "fst (flatten isTop flatMap nested prefix style)
     = fold store (leaves isTop nested prefix style) flatMap"
  "fst (assign style flatMap newKey v) = fold store (leavesAt style newKey v) flatMap"
proof (induction isTop flatMap nested prefix style and style flatMap newKey v
       rule: flatten_assign.induct)
  case (1 isTop flatMap m prefix style)
  have "fold (\<lambda>(k, v) fm. fst (assign style fm (enkey isTop prefix k style) v)) m flatMap
      = fold store
          (concat (map (\<lambda>(k, v). leavesAt style (enkey isTop prefix k style) v) m)) flatMap"
    by (rule fold_concat_map) (use 1 in \<open>auto\<close>)
  then show ?case by simp
next
  case (2 isTop flatMap arr prefix style)
  have "fold (\<lambda>(i, v) fm. fst (assign style fm (enkey isTop prefix (Itoa (int i)) style) v))
          (enumerate 0 arr) flatMap
      = fold store
          (concat (map (\<lambda>(i, v). leavesAt style (enkey isTop prefix (Itoa (int i)) style) v)
             (enumerate 0 arr))) flatMap"
    by (rule fold_concat_map) (use 2 in \<open>auto\<close>)
  then show ?case by simp
next
  case (4 style flatMap newKey v)
  then show ?case by (simp add: shouldFlatten_isLeaf assign.simps leavesAt.simps)
qed simp_all

lemma Flatten_leaves:
  "Flatten m prefix style = Inr (fold store (leaves True (MapV m) prefix style) Map.empty)"
  using flatten_assign_leaves(1)[of True Map.empty "MapV m" prefix style]
  by (simp add: Flatten_def)

lemma fold_store: "fold store xs fm = fm ++ map_of (rev xs)"
  by (induction xs arbitrary: fm) (auto simp: map_add_upd_left)

lemma map_of_rev_distinct: "distinct (map fst xs) \<Longrightarrow> map_of (rev xs) = map_of xs"
  by (subst map_of_inject_set) (simp_all add: rev_map[symmetric])

lemma fold_store_distinct:
  "distinct (map fst xs) \<Longrightarrow> fold store xs Map.empty = map_of xs"
  by (simp add: fold_store map_of_rev_distinct)

lemma card_dom_map_of: "distinct (map fst xs) \<Longrightarrow> card (dom (map_of xs)) = length xs"
  by (simp add: dom_map_of_conv_image_fst distinct_card flip: set_map)

text \<open>
  Claim C1. The package documentation gives, for the map
  \<open>{"one":{"two":["2a","2b"]}, "side":"value"}\<close> with Dot style and the empty prefix, the
  flat map \<open>{"one.two.0":"2a", "one.two.1":"2b", "side":"value"}\<close>. On this input the
  code returns the flat map of two entries \<open>{"one.two":["2a","2b"], "side":"value"}\<close>,
  in either order of the two top-level keys: the slice holds strings only, so
  \<^verbatim>\<open>allPrimitives\<close> is true and the slice is stored whole under its one key.
\<close>

theorem Flatten_doc_example:
  "Flatten [(''one'', MapV [(''two'', SliceV [StringV ''2a'', StringV ''2b''])]),
            (''side'', StringV ''value'')] '''' DotStyle
     = Inr [''one.two'' \<mapsto> SliceV [StringV ''2a'', StringV ''2b''],
            ''side'' \<mapsto> StringV ''value'']
   \<and> Flatten [(''side'', StringV ''value''),
              (''one'', MapV [(''two'', SliceV [StringV ''2a'', StringV ''2b''])])]
         '''' DotStyle
     = Inr [''one.two'' \<mapsto> SliceV [StringV ''2a'', StringV ''2b''],
            ''side'' \<mapsto> StringV ''value'']"
  by (simp add: Flatten_def assign.simps fun_upd_twist)

text \<open>
  The result of the code on that input is not the map of the package documentation, with
  the keys \<open>one.two.0\<close> and \<open>one.two.1\<close>.
\<close>

theorem Flatten_doc_example_differs:
  "Flatten [(''one'', MapV [(''two'', SliceV [StringV ''2a'', StringV ''2b''])]),
            (''side'', StringV ''value'')] '''' DotStyle
   \<noteq> Inr [''one.two.0'' \<mapsto> StringV ''2a'', ''one.two.1'' \<mapsto> StringV ''2b'',
             ''side'' \<mapsto> StringV ''value'']"
proof
  assume "Flatten [(''one'', MapV [(''two'', SliceV [StringV ''2a'', StringV ''2b''])]),
            (''side'', StringV ''value'')] '''' DotStyle
     = Inr [''one.two.0'' \<mapsto> StringV ''2a'', ''one.two.1'' \<mapsto> StringV ''2b'',
             ''side'' \<mapsto> StringV ''value'']"
  then have "[''one.two'' \<mapsto> SliceV [StringV ''2a'', StringV ''2b''],
              ''side'' \<mapsto> StringV ''value'']
     = [''one.two.0'' \<mapsto> StringV ''2a'', ''one.two.1'' \<mapsto> StringV ''2b'',
             ''side'' \<mapsto> StringV ''value'']"
    by (simp add: Flatten_def assign.simps)
  then have "[''one.two'' \<mapsto> SliceV [StringV ''2a'', StringV ''2b''],
              ''side'' \<mapsto> StringV ''value''] ''one.two''
     = [''one.two.0'' \<mapsto> StringV ''2a'', ''one.two.1'' \<mapsto> StringV ''2b'',
             ''side'' \<mapsto> StringV ''value''] ''one.two''"
    by (rule arg_cong)
  then show False by simp
qed

text \<open>
  Claim C2, as the source has it. \<^verbatim>\<open>allPrimitives\<close> holds of a slice exactly when every
  element has one of the dynamic types string, int32, int64, float32, float64 and
  json.Number. When \<^verbatim>\<open>assign\<close> reaches such a slice it stores the whole slice under its
  one key and does not descend. Any other slice (one with a nested map or slice, but also
  one with a boolean, an int or a nil element) is traversed element by element, each
  element assigned under the key of its index, so that the flat map receives the leaves
  below the slice.
\<close>

theorem assign_slice:
  "allPrimitives arr = list_all isPrimitive arr
   \<and> assign style flatMap newKey (SliceV arr)
     = (if allPrimitives arr then (flatMap(newKey \<mapsto> SliceV arr), None)
        else (fold (\<lambda>(i, v) fm.
                      fst (assign style fm (enkey False newKey (Itoa (int i)) style) v))
                (enumerate 0 arr) flatMap, None))
   \<and> fst (assign style flatMap newKey (SliceV arr))
     = (if allPrimitives arr then flatMap(newKey \<mapsto> SliceV arr)
        else fold store (leaves False (SliceV arr) newKey style) flatMap)"
proof -
  have "fst (assign style flatMap newKey (SliceV arr))
     = (if allPrimitives arr then flatMap(newKey \<mapsto> SliceV arr)
        else fold store (leaves False (SliceV arr) newKey style) flatMap)"
    by (simp only: flatten_assign_leaves leavesAt.simps isLeaf.simps allPrimitives_list_all
          fold_simps store.simps split: if_splits) simp
  then show ?thesis
    by (simp add: assign.simps allPrimitives_list_all)
qed

text \<open>
  Claim C2 as the specification states it fails: a slice of two booleans holds scalars
  only, yet it is not stored under its key \<open>k\<close>; its elements are stored under \<open>k.0\<close> and
  \<open>k.1\<close>.
\<close>

theorem assign_slice_counterexample:
  "\<not> allPrimitives [BoolV True, BoolV False]
   \<and> fst (assign DotStyle Map.empty ''k'' (SliceV [BoolV True, BoolV False]))
       = [''k.0'' \<mapsto> BoolV True, ''k.1'' \<mapsto> BoolV False]
   \<and> [''k.0'' \<mapsto> BoolV True, ''k.1'' \<mapsto> BoolV False] ''k'' = None"
  by (simp add: assign.simps Itoa_def)

text \<open>
  Claim C8. A map whose values are all scalars (no map, no slice), flattened with the
  empty prefix and any style, comes back unchanged: the flat map has exactly the entries
  of the input.
\<close>

theorem Flatten_flat_unchanged:
  assumes "distinct (map fst m)"
    and "\<forall>(k, v) \<in> set m. \<not> isMap v \<and> \<not> isSlice v"
  shows "Flatten m '''' style = Inr (map_of m)"
proof -
  have "leavesAt style k v = [(k, v)]" if "(k, v) \<in> set m" for k v
    using assms(2) that by (cases v) (auto simp: leavesAt.simps)
  then have "map (\<lambda>(k, v). leavesAt style (enkey True '''' k style) v) m
      = map (\<lambda>kv. [kv]) m"
    by (intro map_cong) auto
  then have "leaves True (MapV m) '''' style = m"
    by (simp only: leaves.simps concat_singletons)
  then show ?thesis using assms(1) by (simp add: Flatten_leaves fold_store_distinct)
qed

theorem Flatten_flat_unchanged_witness:
  "distinct (map fst [(''a'', StringV ''b''), (''n'', BoolV True)])
   \<and> \<not> isMap (StringV ''b'') \<and> \<not> isSlice (StringV ''b'')
   \<and> \<not> isMap (BoolV True) \<and> \<not> isSlice (BoolV True)
   \<and> Flatten [(''a'', StringV ''b''), (''n'', BoolV True)] '''' RailsStyle
       = Inr (map_of [(''a'', StringV ''b''), (''n'', BoolV True)])"
  using Flatten_flat_unchanged [of "[(''a'', StringV ''b''), (''n'', BoolV True)]" RailsStyle]
  by simp

section \<open>The text variant on maps without slices\<close>

lemma leafPaths_nonempty: "(p, x) \<in> set (leafPaths v) \<Longrightarrow> p \<noteq> []"
  by (cases v) (auto split: if_splits)

lemma dotJoin_Cons: "p \<noteq> [] \<Longrightarrow> dotJoin (k # p) = k @ ''.'' @ dotJoin p"
  by (cases p) simp_all

lemma leaves_noSlices:
  "noSlices v \<Longrightarrow> isMap v \<Longrightarrow>
   leaves isTop v prefix DotStyle
   = map (\<lambda>(p, x). (enkey isTop prefix (dotJoin p) DotStyle, x)) (leafPaths v)"
proof (induction v arbitrary: isTop prefix)
  case (MapV m)
  have "leavesAt DotStyle (enkey isTop prefix k DotStyle) v
        = map (\<lambda>(p, x). (enkey isTop prefix (dotJoin p) DotStyle, x))
            (if isMap v then map (\<lambda>(p, x). (k # p, x)) (leafPaths v) else [([k], v)])"
    if kv: "(k, v) \<in> set m" for k v
  proof (cases "isMap v")
    case True
    from MapV.prems kv have ns: "noSlices v" by (auto simp: list_all_iff)
    have "leaves False v (enkey isTop prefix k DotStyle) DotStyle
        = map (\<lambda>(p, x). (enkey False (enkey isTop prefix k DotStyle) (dotJoin p) DotStyle, x))
            (leafPaths v)"
      using MapV.IH[of "(k, v)" v] kv ns True by simp
    also have "\<dots>
        = map (\<lambda>(p, x). (enkey isTop prefix (dotJoin (k # p)) DotStyle, x)) (leafPaths v)"
      by (cases isTop) (auto simp: dotJoin_Cons dest: leafPaths_nonempty)
    finally show ?thesis
      using True by (cases v) (simp_all add: leavesAt.simps comp_def case_prod_unfold)
  next
    case False
    from MapV.prems kv have ns: "noSlices v" by (auto simp: list_all_iff)
    with False show ?thesis by (cases v) (simp_all add: leavesAt.simps)
  qed
  then have eq: "map (\<lambda>(k, v). leavesAt DotStyle (enkey isTop prefix k DotStyle) v) m
     = map (\<lambda>(k, v). map (\<lambda>(p, x). (enkey isTop prefix (dotJoin p) DotStyle, x))
            (if isMap v then map (\<lambda>(p, x). (k # p, x)) (leafPaths v) else [([k], v)])) m"
    by (intro map_cong) auto
  have "leaves isTop (MapV m) prefix DotStyle
      = concat (map (\<lambda>(k, v). map (\<lambda>(p, x). (enkey isTop prefix (dotJoin p) DotStyle, x))
            (if isMap v then map (\<lambda>(p, x). (k # p, x)) (leafPaths v) else [([k], v)])) m)"
    by (simp only: leaves.simps eq)
  also have "\<dots>
      = map (\<lambda>(p, x). (enkey isTop prefix (dotJoin p) DotStyle, x)) (leafPaths (MapV m))"
    by (simp only: leafPaths.simps map_concat map_map comp_def case_prod_unfold)
  finally show ?case .
qed simp_all

text \<open>
  Claim C9, as the source has it. Let the text decode to a map \<open>m\<close> that holds scalars and
  nested maps only, and let the dot-joined paths of the leaves of \<open>m\<close> be pairwise
  distinct. Then FlattenString with the empty prefix and Dot style hands to the encoder
  the flat map that has exactly one entry per leaf of \<open>m\<close>, under the dot-joined path of
  the leaf, and returns what the encoder returns for it.
\<close>

theorem FlattenString_maps_only:
  assumes "unmarshal nestedstr = Inr m"
    and "noSlices (MapV m)"
    and "distinct (map fst (dotLeaves m))"
  shows "FlattenString unmarshal marshal nestedstr '''' DotStyle
           = marshal (map_of (dotLeaves m))
         \<and> Flatten m '''' DotStyle = Inr (map_of (dotLeaves m))
         \<and> card (dom (map_of (dotLeaves m))) = length (leafPaths (MapV m))"
proof -
  have "leaves True (MapV m) '''' DotStyle = dotLeaves m"
    using leaves_noSlices[OF assms(2), of True "''''"] by (simp add: dotLeaves_def)
  then have fl: "Flatten m '''' DotStyle = Inr (map_of (dotLeaves m))"
    using assms(3) by (simp add: Flatten_leaves fold_store_distinct)
  have "FlattenString unmarshal marshal nestedstr '''' DotStyle
          = marshal (map_of (dotLeaves m))"
    using assms(1) fl by (simp add: FlattenString_def split: sum.splits)
  moreover have "card (dom (map_of (dotLeaves m))) = length (leafPaths (MapV m))"
    using card_dom_map_of[OF assms(3)] by (simp add: dotLeaves_def)
  ultimately show ?thesis using fl by simp
qed

theorem FlattenString_maps_only_witness:
  \<open>(\<lambda>s. if s = ''{"a":{"b":"c"},"e":"f"}''
         then Inr [(''a'', MapV [(''b'', StringV ''c'')]), (''e'', StringV ''f'')]
         else Inl (JSONError ''syntax'')) ''{"a":{"b":"c"},"e":"f"}''
     = (Inr [(''a'', MapV [(''b'', StringV ''c'')]), (''e'', StringV ''f'')]
          :: error + (string \<times> iface) list)
   \<and> noSlices (MapV [(''a'', MapV [(''b'', StringV ''c'')]), (''e'', StringV ''f'')])
   \<and> distinct (map fst (dotLeaves [(''a'', MapV [(''b'', StringV ''c'')]),
                                      (''e'', StringV ''f'')]))
   \<and> FlattenString
        (\<lambda>s. if s = ''{"a":{"b":"c"},"e":"f"}''
              then Inr [(''a'', MapV [(''b'', StringV ''c'')]), (''e'', StringV ''f'')]
              else Inl (JSONError ''syntax''))
        (\<lambda>fm. Inr ''{"a.b":"c","e":"f"}'') ''{"a":{"b":"c"},"e":"f"}'' '''' DotStyle
       = Inr ''{"a.b":"c","e":"f"}''
   \<and> Flatten [(''a'', MapV [(''b'', StringV ''c'')]), (''e'', StringV ''f'')] '''' DotStyle
       = Inr (map_of [(''a.b'', StringV ''c''), (''e'', StringV ''f'')])
   \<and> card (dom (map_of [(''a.b'', StringV ''c''), (''e'', StringV ''f'')])) = 2\<close>
  using FlattenString_maps_only [of
      \<open>\<lambda>s. if s = ''{"a":{"b":"c"},"e":"f"}''
            then Inr [(''a'', MapV [(''b'', StringV ''c'')]), (''e'', StringV ''f'')]
            else Inl (JSONError ''syntax'')\<close>
      \<open>''{"a":{"b":"c"},"e":"f"}''\<close>
      "[(''a'', MapV [(''b'', StringV ''c'')]), (''e'', StringV ''f'')]"
      \<open>\<lambda>fm. Inr ''{"a.b":"c","e":"f"}''\<close>]
  by (simp add: dotLeaves_def)

text \<open>
  Claim C9 as the specification states it fails: the map
  \<open>{"a.b":"x", "a":{"b":"y"}}\<close> has two leaves and no slice, and both leaves have the
  dot-joined path \<open>a.b\<close>; the flat map has one entry.
\<close>

theorem Flatten_collision_counterexample:
  "noSlices (MapV [(''a.b'', StringV ''x''), (''a'', MapV [(''b'', StringV ''y'')])])
   \<and> length (leafPaths (MapV [(''a.b'', StringV ''x''),
                                (''a'', MapV [(''b'', StringV ''y'')])])) = 2
   \<and> Flatten [(''a.b'', StringV ''x''), (''a'', MapV [(''b'', StringV ''y'')])] '''' DotStyle
       = Inr [''a.b'' \<mapsto> StringV ''y'']
   \<and> card (dom [''a.b'' \<mapsto> StringV ''y'']) = 1"
  by (simp add: Flatten_def assign.simps)

section \<open>The list variant\<close>

lemma fold_emit: "fold (emit fmtv) xs result = result @ map (entry fmtv) xs"
  by (induction xs arbitrary: result) auto

lemma entry_eq: "entry fmtv = (\<lambda>(path, v). path @ ''.'' @ fmtv v)"
  by (auto simp: fun_eq_iff)

lemma flattenAll_None:
  "isMap nested \<or> isSlice nested
   \<Longrightarrow> snd (flattenAll fmtv isTop result nested prefix style) = None"
  by (cases nested) simp_all

lemma assignAll_nested:
  "isMap v \<or> isSlice v
   \<Longrightarrow> assignAll fmtv style result newKey v = flattenAll fmtv False result v newKey style"
  by (cases v) (simp_all add: assignAll.simps)

lemma assignAll_leaf:
  "\<not> isMap v \<Longrightarrow> \<not> isSlice v
   \<Longrightarrow> assignAll fmtv style result newKey v = (result @ [newKey @ ''.'' @ fmtv v], None)"
  by (simp add: assignAll.simps)

lemma flattenAll_allLeaves:
  "fst (flattenAll fmtv isTop result nested prefix style)
     = fold (emit fmtv) (allLeaves isTop nested prefix style) result"
  "fst (assignAll fmtv style result newKey v)
     = fold (emit fmtv) (allLeavesAt style newKey v) result"
proof (induction fmtv isTop result nested prefix style and fmtv style result newKey v
       rule: flattenAll_assignAll.induct)
  case (1 fmtv isTop result m prefix style)
  have "fold (\<lambda>(k, v) res. fst (assignAll fmtv style res (enkey isTop prefix k style) v))
          m result
      = fold (emit fmtv)
          (concat (map (\<lambda>(k, v). allLeavesAt style (enkey isTop prefix k style) v) m)) result"
    by (rule fold_concat_map) (use 1 in \<open>auto\<close>)
  then show ?case by simp
next
  case (2 fmtv isTop result arr prefix style)
  have "fold (\<lambda>(i, v) res.
                fst (assignAll fmtv style res (enkey isTop prefix (Itoa (int i)) style) v))
          (enumerate 0 arr) result
      = fold (emit fmtv)
          (concat (map (\<lambda>(i, v).
                          allLeavesAt style (enkey isTop prefix (Itoa (int i)) style) v)
             (enumerate 0 arr))) result"
    by (rule fold_concat_map) (use 2 in \<open>auto\<close>)
  then show ?case by simp
next
  case (4 fmtv style result newKey v)
  show ?case
  proof (cases "isMap v \<or> isSlice v")
    case True
    with 4 show ?thesis by (simp add: assignAll_nested allLeavesAt.simps)
  next
    case False
    then show ?thesis by (simp add: assignAll_leaf allLeavesAt.simps)
  qed
qed simp_all

lemma flattenAll_entries:
  "fst (flattenAll fmtv isTop result nested prefix style)
     = result @ map (entry fmtv) (allLeaves isTop nested prefix style)"
  by (simp only: flattenAll_allLeaves fold_emit)

lemma allLeaves_scalar_slice:
  assumes "list_all (\<lambda>v. \<not> isMap v \<and> \<not> isSlice v) arr"
  shows "allLeaves isTop (SliceV arr) prefix style
        = map (\<lambda>(i, v). (enkey isTop prefix (Itoa (int i)) style, v)) (enumerate 0 arr)"
proof -
  have "map (\<lambda>(i, v). allLeavesAt style (enkey isTop prefix (Itoa (int i)) style) v)
          (enumerate 0 arr)
      = map (\<lambda>iv. [iv])
          (map (\<lambda>(i, v). (enkey isTop prefix (Itoa (int i)) style, v)) (enumerate 0 arr))"
    using assms by (auto simp: list_all_iff in_set_enumerate_eq allLeavesAt.simps)
  then show ?thesis by (simp only: allLeaves.simps concat_singletons)
qed

lemma FlattenAll_eq:
  "isMap nested \<or> isSlice nested \<Longrightarrow>
   FlattenAll fmtv nested prefix style sortd
     = Inr (if sortd then sort (map (entry fmtv) (allLeaves True nested prefix style))
            else map (entry fmtv) (allLeaves True nested prefix style))"
  using flattenAll_entries[of fmtv True "[]" nested prefix style]
        flattenAll_None[of nested fmtv True "[]" prefix style]
  by (cases "flattenAll fmtv True [] nested prefix style") (simp add: FlattenAll_def)

text \<open>
  Claim C4. In the list variant \<^verbatim>\<open>assign\<close> enters every map and every slice, whatever
  its elements, and for any other value appends the one entry made of the path, a dot and
  the value rendered as text. So the traversal appends to the result list one such entry
  per leaf, in the order of the traversal, and a slice of scalars yields one entry per
  element, not one for the slice. FlattenAll of a map or slice returns exactly these
  entries: in the order of the traversal when \<open>sorted\<close> is false, and sorted otherwise.
\<close>

theorem flattenAll_leaf_policy:
  "assignAll fmtv style result newKey (MapV m)
     = flattenAll fmtv False result (MapV m) newKey style
   \<and> assignAll fmtv style result newKey (SliceV arr)
       = flattenAll fmtv False result (SliceV arr) newKey style
   \<and> (\<not> isMap v \<and> \<not> isSlice v \<longrightarrow>
        assignAll fmtv style result newKey v = (result @ [newKey @ ''.'' @ fmtv v], None))
   \<and> fst (flattenAll fmtv isTop result nested prefix style)
       = result @ map (\<lambda>(path, v). path @ ''.'' @ fmtv v)
                    (allLeaves isTop nested prefix style)
   \<and> (list_all (\<lambda>v. \<not> isMap v \<and> \<not> isSlice v) arr \<longrightarrow>
        fst (flattenAll fmtv isTop result (SliceV arr) prefix style)
        = result @ map (\<lambda>(i, v). enkey isTop prefix (Itoa (int i)) style @ ''.'' @ fmtv v)
                     (enumerate 0 arr))
   \<and> (isMap nested \<or> isSlice nested \<longrightarrow>
        FlattenAll fmtv nested prefix style False
          = Inr (map (\<lambda>(path, v). path @ ''.'' @ fmtv v) (allLeaves True nested prefix style))
        \<and> FlattenAll fmtv nested prefix style True
          = Inr (sort (map (\<lambda>(path, v). path @ ''.'' @ fmtv v)
                         (allLeaves True nested prefix style))))"
proof -
  have fa: "FlattenAll fmtv nested prefix style False
          = Inr (map (\<lambda>(path, v). path @ ''.'' @ fmtv v) (allLeaves True nested prefix style))
        \<and> FlattenAll fmtv nested prefix style True
          = Inr (sort (map (\<lambda>(path, v). path @ ''.'' @ fmtv v)
                         (allLeaves True nested prefix style)))"
    if "isMap nested \<or> isSlice nested"
    using FlattenAll_eq[OF that, of fmtv prefix style False]
          FlattenAll_eq[OF that, of fmtv prefix style True]
    by (simp add: entry_eq)
  have g: "fst (flattenAll fmtv isTop result nested prefix style)
       = result @ map (\<lambda>(path, v). path @ ''.'' @ fmtv v)
                    (allLeaves isTop nested prefix style)"
    for nested
    by (simp only: flattenAll_entries entry_eq)
  have s: "fst (flattenAll fmtv isTop result (SliceV arr) prefix style)
        = result @ map (\<lambda>(i, v). enkey isTop prefix (Itoa (int i)) style @ ''.'' @ fmtv v)
                     (enumerate 0 arr)"
    if "list_all (\<lambda>v. \<not> isMap v \<and> \<not> isSlice v) arr"
    by (simp only: g allLeaves_scalar_slice[OF that] map_map comp_def case_prod_unfold
          fst_conv snd_conv)
  have "assignAll fmtv style result newKey (MapV m)
          = flattenAll fmtv False result (MapV m) newKey style
      \<and> assignAll fmtv style result newKey (SliceV arr)
          = flattenAll fmtv False result (SliceV arr) newKey style
      \<and> (\<not> isMap v \<and> \<not> isSlice v \<longrightarrow>
          assignAll fmtv style result newKey v = (result @ [newKey @ ''.'' @ fmtv v], None))"
    by (simp add: assignAll_nested assignAll_leaf del: flattenAll.simps)
  with g s fa show ?thesis
    by blast
qed

theorem flattenAll_leaf_policy_witness:
  "\<not> isMap (BoolV True) \<and> \<not> isSlice (BoolV True)
   \<and> assignAll (fmt_v (\<lambda>v. [])) DotStyle [] ''k'' (BoolV True) = ([''k.true''], None)
   \<and> list_all (\<lambda>v. \<not> isMap v \<and> \<not> isSlice v) [StringV ''2a'', StringV ''2b'']
   \<and> fst (flattenAll (fmt_v (\<lambda>v. [])) True [] (SliceV [StringV ''2a'', StringV ''2b''])
            '''' DotStyle)
       = [''0.2a'', ''1.2b'']
   \<and> (isMap (MapV [(''side'', BoolV True),
                      (''one'', MapV [(''two'', SliceV [StringV ''2a'', StringV ''2b''])])])
       \<or> isSlice (MapV [(''side'', BoolV True),
                      (''one'', MapV [(''two'', SliceV [StringV ''2a'', StringV ''2b''])])]))
   \<and> FlattenAll (fmt_v (\<lambda>v. []))
        (MapV [(''side'', BoolV True),
               (''one'', MapV [(''two'', SliceV [StringV ''2a'', StringV ''2b''])])])
        '''' DotStyle False
       = Inr [''side.true'', ''one.two.0.2a'', ''one.two.1.2b'']
   \<and> FlattenAll (fmt_v (\<lambda>v. []))
        (MapV [(''side'', BoolV True),
               (''one'', MapV [(''two'', SliceV [StringV ''2a'', StringV ''2b''])])])
        '''' DotStyle True
       = Inr [''one.two.0.2a'', ''one.two.1.2b'', ''side.true'']"
  using flattenAll_leaf_policy [where fmtv = "fmt_v (\<lambda>v. [])" and style = DotStyle
      and result = "[]" and newKey = "''k''" and m = "[]"
      and arr = "[StringV ''2a'', StringV ''2b'']" and v = "BoolV True" and isTop = True
      and nested = "MapV [(''side'', BoolV True),
               (''one'', MapV [(''two'', SliceV [StringV ''2a'', StringV ''2b''])])]"
      and prefix = "''''"]
  by (simp add: Itoa_def allLeavesAt.simps)

section \<open>Sorting the flat list\<close>

lemma mset_concat_map_perm:
  assumes "mset xs = mset ys"
  shows "mset (concat (map f xs)) = mset (concat (map f ys))"
proof -
  from assms have "mset (map (mset \<circ> f) xs) = mset (map (mset \<circ> f) ys)"
    by (metis mset_map)
  then have "sum_list (map (mset \<circ> f) xs) = sum_list (map (mset \<circ> f) ys)"
    by (metis sum_mset_sum_list)
  then show ?thesis by (simp add: mset_concat)
qed

lemma mset_concat_map_cong:
  "(\<And>x. x \<in> set xs \<Longrightarrow> mset (f x) = mset (g x))
   \<Longrightarrow> mset (concat (map f xs)) = mset (concat (map g xs))"
  by (induction xs) simp_all

lemma canon_nested [simp]: "isMap (canon v) = isMap v" "isSlice (canon v) = isSlice v"
  by (cases v; simp)+

lemma enumerate_map: "enumerate n (map f xs) = map (\<lambda>(i, x). (i, f x)) (enumerate n xs)"
  by (induction xs arbitrary: n) simp_all

text \<open>Visiting the maps in another order permutes the leaves.\<close>

lemma allLeaves_canon:
  "mset (allLeaves isTop (canon nested) prefix style)
     = mset (allLeaves isTop nested prefix style)"
  "mset (allLeavesAt style path (canon v)) = mset (allLeavesAt style path v)"
proof (induction isTop nested prefix style and style path v
       rule: allLeaves_allLeavesAt.induct)
  case (1 isTop m prefix style)
  let ?g = "\<lambda>(k, v). allLeavesAt style (enkey isTop prefix k style) v"
  have "mset (allLeaves isTop (canon (MapV m)) prefix style)
      = mset (concat (map ?g (sort_key fst (map (\<lambda>(k, v). (k, canon v)) m))))"
    by simp
  also have "\<dots> = mset (concat (map ?g (map (\<lambda>(k, v). (k, canon v)) m)))"
    by (rule mset_concat_map_perm) simp
  also have "\<dots> = mset (concat (map (\<lambda>(k, v).
                 allLeavesAt style (enkey isTop prefix k style) (canon v)) m))"
    by (simp add: comp_def case_prod_unfold)
  also have "\<dots> = mset (concat (map ?g m))"
    by (rule mset_concat_map_cong) (use 1 in auto)
  finally show ?case by simp
next
  case (2 isTop arr prefix style)
  let ?g = "\<lambda>(i, v). allLeavesAt style (enkey isTop prefix (Itoa (int i)) style) v"
  have "mset (allLeaves isTop (canon (SliceV arr)) prefix style)
      = mset (concat (map (\<lambda>(i, v).
                 allLeavesAt style (enkey isTop prefix (Itoa (int i)) style) (canon v))
               (enumerate 0 arr)))"
    by (simp add: enumerate_map comp_def case_prod_unfold)
  also have "\<dots> = mset (concat (map ?g (enumerate 0 arr)))"
    by (rule mset_concat_map_cong) (use 2 in auto)
  finally show ?case by simp
next
  case (4 style path v)
  show ?case
  proof (cases "isMap v \<or> isSlice v")
    case True
    with 4 show ?thesis by (simp add: allLeavesAt.simps)
  next
    case False
    then have "canon v = v" by (cases v) simp_all
    then show ?thesis by simp
  qed
qed simp_all

lemma FlattenAll_sorted_eq:
  "isMap nested \<or> isSlice nested \<Longrightarrow>
   FlattenAll fmtv nested prefix style True
     = Inr (sort (map (entry fmtv) (allLeaves True nested prefix style)))"
  using flattenAll_entries[of fmtv True "[]" nested prefix style]
        flattenAll_None[of nested fmtv True "[]" prefix style]
  by (cases "flattenAll fmtv True [] nested prefix style") (simp add: FlattenAll_def)

text \<open>
  Claim C7, as the source has it. For every map or slice, every prefix and every style,
  FlattenAll with \<open>sorted = true\<close> returns a list in ascending (not always strictly
  ascending) lexicographic order. The list holds the entries of the leaves, each as often
  as the traversal produces it, and it is the same list for every order in which the maps
  of the tree are visited (\<open>nested'\<close> is the same tree visited in another order).
\<close>

theorem FlattenAll_sorted:
  assumes "isMap nested \<or> isSlice nested"
    and "canon nested' = canon nested"
  shows "\<exists>result. FlattenAll fmtv nested prefix style True = Inr result
           \<and> sorted result
           \<and> mset result = mset (map (\<lambda>(path, v). path @ ''.'' @ fmtv v)
                                  (allLeaves True nested prefix style))
           \<and> FlattenAll fmtv nested' prefix style True = Inr result"
proof -
  let ?es = "map (entry fmtv) (allLeaves True nested prefix style)"
  have "mset (allLeaves True nested' prefix style)
      = mset (allLeaves True (canon nested') prefix style)"
    by (simp only: allLeaves_canon)
  also have "\<dots> = mset (allLeaves True nested prefix style)"
    by (simp only: assms(2) allLeaves_canon)
  finally have "mset (map (entry fmtv) (allLeaves True nested' prefix style)) = mset ?es"
    by simp
  then have "sort (map (entry fmtv) (allLeaves True nested' prefix style)) = sort ?es"
    by (intro properties_for_sort) simp_all
  moreover have "isMap nested' \<or> isSlice nested'"
    using assms canon_nested[of nested'] by simp
  ultimately have "FlattenAll fmtv nested' prefix style True = Inr (sort ?es)"
    by (simp only: FlattenAll_sorted_eq)
  with FlattenAll_sorted_eq[OF assms(1), of fmtv prefix style] show ?thesis
    by (simp add: entry_eq)
qed

theorem FlattenAll_sorted_witness:
  "(isMap (MapV [(''b'', StringV ''x''), (''a'', SliceV [BoolV True, IntV 7])])
     \<or> isSlice (MapV [(''b'', StringV ''x''), (''a'', SliceV [BoolV True, IntV 7])]))
   \<and> canon (MapV [(''a'', SliceV [BoolV True, IntV 7]), (''b'', StringV ''x'')])
       = canon (MapV [(''b'', StringV ''x''), (''a'', SliceV [BoolV True, IntV 7])])
   \<and> FlattenAll (fmt_v (\<lambda>v. []))
        (MapV [(''b'', StringV ''x''), (''a'', SliceV [BoolV True, IntV 7])])
        '''' DotStyle True = Inr [''a.0.true'', ''a.1.7'', ''b.x'']
   \<and> FlattenAll (fmt_v (\<lambda>v. []))
        (MapV [(''a'', SliceV [BoolV True, IntV 7]), (''b'', StringV ''x'')])
        '''' DotStyle True = Inr [''a.0.true'', ''a.1.7'', ''b.x'']
   \<and> sorted [''a.0.true'', ''a.1.7'', ''b.x'']"
  using FlattenAll_sorted [of
     "MapV [(''b'', StringV ''x''), (''a'', SliceV [BoolV True, IntV 7])]"
     "MapV [(''a'', SliceV [BoolV True, IntV 7]), (''b'', StringV ''x'')]"
     "fmt_v (\<lambda>v. [])" "''''" DotStyle]
  by (simp add: FlattenAll_def assignAll.simps Itoa_def)

text \<open>
  Claim C7 as the specification states it fails: the map \<open>{"a":{"b":"c"}, "a.b":"c"}\<close>
  gives the entry \<open>a.b.c\<close> twice, so the sorted list is not strictly ascending.
\<close>

theorem FlattenAll_sorted_counterexample:
  "FlattenAll (fmt_v (\<lambda>v. []))
     (MapV [(''a'', MapV [(''b'', StringV ''c'')]), (''a.b'', StringV ''c'')])
     '''' DotStyle True
     = Inr [''a.b.c'', ''a.b.c'']
   \<and> \<not> sorted_wrt (<) [''a.b.c'', ''a.b.c'']"
  by (simp add: FlattenAll_def assignAll.simps)

section \<open>Errors\<close>

text \<open>
  Claim C3, as the source has it. Each traversal returns \<^verbatim>\<open>NotValidInputError\<close> exactly
  when the value it is called on is neither a map nor a slice (a bare scalar among them),
  whatever that value contains, and FlattenAll fails with that error exactly then. A value
  below the top level that is no map and no slice is a leaf and raises nothing: the map
  variant stores every leaf it reaches (\<open>leaves\<close>), and the list variant appends the entry
  of every leaf it reaches (\<open>allLeaves\<close>).
\<close>

theorem error_iff_top_level:
  "snd (flatten isTop flatMap nested prefix style)
     = (if isMap nested \<or> isSlice nested then None else Some NotValidInputError)
   \<and> snd (flattenAll fmtv isTop result nested prefix style)
     = (if isMap nested \<or> isSlice nested then None else Some NotValidInputError)
   \<and> (FlattenAll fmtv nested prefix style sortd = Inl NotValidInputError)
     = (\<not> (isMap nested \<or> isSlice nested))
   \<and> fst (flatten isTop flatMap nested prefix style)
     = fold store (leaves isTop nested prefix style) flatMap
   \<and> fst (flattenAll fmtv isTop result nested prefix style)
     = result @ map (entry fmtv) (allLeaves isTop nested prefix style)"
proof -
  have "snd (flatten isTop flatMap nested prefix style)
     = (if isMap nested \<or> isSlice nested then None else Some NotValidInputError)
   \<and> snd (flattenAll fmtv isTop result nested prefix style)
     = (if isMap nested \<or> isSlice nested then None else Some NotValidInputError)
   \<and> (FlattenAll fmtv nested prefix style sortd = Inl NotValidInputError)
     = (\<not> (isMap nested \<or> isSlice nested))"
    by (cases nested) (simp_all add: FlattenAll_def)
  then show ?thesis
    by (simp only: flatten_assign_leaves flattenAll_entries simp_thms)
qed

text \<open>
  Claim C3 as the specification states it fails: a value that is no map, no slice and no
  scalar (here a struct) below the top level is stored, or rendered into an entry, and
  no error is returned.
\<close>

theorem error_iff_top_level_counterexample:
  "Flatten [(''a'', OtherV ''struct'')] '''' DotStyle = Inr [''a'' \<mapsto> OtherV ''struct'']
   \<and> FlattenAll (fmt_v (\<lambda>v. ''{}'')) (MapV [(''a'', OtherV ''struct'')]) '''' DotStyle False
       = Inr [''a.{}'']"
  by (simp add: Flatten_def FlattenAll_def assign.simps assignAll.simps)

text \<open>
  Claim C10. The closure \<^verbatim>\<open>assign\<close> of either traversal never returns an error, and the
  loops drop what it returns: a value below the top level that is no map and no slice is
  stored (map variant) or rendered into an entry (list variant) without error, whatever
  its kind. \<^verbatim>\<open>NotValidInputError\<close> comes only from the value the traversal is called on.
  Flatten, whose argument is a map, returns a flat map and no error for every input; for
  the empty (or nil) map it returns the empty flat map. The flat map holds every leaf the
  traversal reaches, and FlattenAll of a map or slice returns the entry of every leaf.
\<close>

theorem assign_error_dropped:
  "snd (assign style flatMap newKey v) = None
   \<and> snd (assignAll fmtv style result newKey v) = None
   \<and> (\<not> isMap v \<and> \<not> isSlice v \<longrightarrow>
        assign style flatMap newKey v = (flatMap(newKey \<mapsto> v), None)
        \<and> assignAll fmtv style result newKey v = (result @ [newKey @ ''.'' @ fmtv v], None))
   \<and> (snd (flatten isTop flatMap nested prefix style) = Some NotValidInputError)
       = (\<not> isMap nested \<and> \<not> isSlice nested)
   \<and> (snd (flattenAll fmtv isTop result nested prefix style) = Some NotValidInputError)
       = (\<not> isMap nested \<and> \<not> isSlice nested)
   \<and> Flatten m prefix style = Inr (fst (flatten True Map.empty (MapV m) prefix style))
   \<and> Flatten [] prefix style = Inr Map.empty
   \<and> Flatten m prefix style = Inr (fold store (leaves True (MapV m) prefix style) Map.empty)
   \<and> (isMap nested \<or> isSlice nested \<longrightarrow>
        FlattenAll fmtv nested prefix style False
          = Inr (map (entry fmtv) (allLeaves True nested prefix style)))"
proof -
  have a: "snd (assign style flatMap newKey v) = None"
    by (cases v) (simp_all add: assign.simps)
  have b: "snd (assignAll fmtv style result newKey v) = None"
    by (cases v) (simp_all add: assignAll.simps)
  have "assign style flatMap newKey v = (flatMap(newKey \<mapsto> v), None)"
    if "\<not> isMap v \<and> \<not> isSlice v"
    using that shouldFlatten_nested[of v] by (auto simp: assign.simps)
  then have c: "\<not> isMap v \<and> \<not> isSlice v \<longrightarrow>
        assign style flatMap newKey v = (flatMap(newKey \<mapsto> v), None)
        \<and> assignAll fmtv style result newKey v = (result @ [newKey @ ''.'' @ fmtv v], None)"
    by (simp add: assignAll_leaf)
  have d: "(snd (flatten isTop flatMap nested prefix style) = Some NotValidInputError)
       = (\<not> isMap nested \<and> \<not> isSlice nested)"
    by (cases nested) simp_all
  have e: "(snd (flattenAll fmtv isTop result nested prefix style) = Some NotValidInputError)
       = (\<not> isMap nested \<and> \<not> isSlice nested)"
    by (cases nested) simp_all
  have f: "Flatten m prefix style = Inr (fst (flatten True Map.empty (MapV m) prefix style))"
    by (simp add: Flatten_def)
  have g: "Flatten [] prefix style = Inr Map.empty"
    by (simp add: Flatten_def)
  have h: "Flatten m prefix style
             = Inr (fold store (leaves True (MapV m) prefix style) Map.empty)"
    by (rule Flatten_leaves)
  have i: "isMap nested \<or> isSlice nested \<longrightarrow>
        FlattenAll fmtv nested prefix style False
          = Inr (map (entry fmtv) (allLeaves True nested prefix style))"
    using FlattenAll_eq[of nested fmtv prefix style False] by simp
  show ?thesis
    by (intro conjI a b c d e f g h i)
qed

theorem assign_error_dropped_witness:
  "\<not> isMap NilV \<and> \<not> isSlice NilV
   \<and> assign DotStyle Map.empty ''a'' NilV = ([''a'' \<mapsto> NilV], None)
   \<and> assignAll (fmt_v (\<lambda>v. [])) DotStyle [] ''a'' NilV = ([''a.<nil>''], None)
   \<and> Flatten [(''a'', NilV)] '''' DotStyle = Inr [''a'' \<mapsto> NilV]
   \<and> (isMap (MapV [(''a'', NilV)]) \<or> isSlice (MapV [(''a'', NilV)]))
   \<and> FlattenAll (fmt_v (\<lambda>v. [])) (MapV [(''a'', NilV)]) '''' DotStyle False
       = Inr [''a.<nil>'']"
  using assign_error_dropped [where style = DotStyle and flatMap = Map.empty
      and newKey = "''a''" and v = NilV and fmtv = "fmt_v (\<lambda>v. [])" and result = "[]"
      and isTop = True and nested = "MapV [(''a'', NilV)]" and prefix = "''''"
      and m = "[(''a'', NilV)]"]
  by (simp add: assign.simps allLeavesAt.simps leavesAt.simps)

section \<open>Cases of the source's tests\<close>

text \<open>
  The second case of TestFlatten (Rails style) and the second and third cases of
  TestFlattenArray, evaluated on the model.
\<close>

lemma TestFlatten_rails:
  "Flatten [(''foo'', MapV [(''jim'', StringV ''bean'')]),
            (''fee'', StringV ''bar''),
            (''n1'', MapV [(''alist'', SliceV [StringV ''a'', StringV ''b'', StringV ''c'',
                 MapV [(''d'', StringV ''other''), (''e'', StringV ''another'')]])])]
     '''' RailsStyle
   = Inr [''foo[jim]'' \<mapsto> StringV ''bean'',
          ''fee'' \<mapsto> StringV ''bar'',
          ''n1[alist][0]'' \<mapsto> StringV ''a'',
          ''n1[alist][1]'' \<mapsto> StringV ''b'',
          ''n1[alist][2]'' \<mapsto> StringV ''c'',
          ''n1[alist][3][d]'' \<mapsto> StringV ''other'',
          ''n1[alist][3][e]'' \<mapsto> StringV ''another'']"
  by (simp add: Flatten_def assign.simps Itoa_def)

lemma TestFlattenArray_slice:
  "FlattenAll (fmt_v (\<lambda>v. [])) (SliceV [MapV [(''foo'', IntV 1)], StringV ''bar''])
     '''' DotStyle True
   = Inr [''0.foo.1'', ''1.bar'']
   \<and> FlattenAll (fmt_v (\<lambda>v. [])) (MapV []) '''' DotStyle True = Inr []"
  by (simp add: FlattenAll_def assignAll.simps Itoa_def)

end
